theory Spec2Isabelle
  imports Complex_Main "HOL-Library.Multiset" "HOL-Library.Sublist"
begin

section \<open>Copernicus product query: filter construction, paginated search, normalisation\<close>

text \<open>
  A shallow embedding of \<^verbatim>\<open>copernicus_query_app.py\<close>: the three functions
  \<^verbatim>\<open>build_odata_filter\<close>, \<^verbatim>\<open>search_products\<close> and
  \<^verbatim>\<open>extract_product_info\<close>. Python strings are \<^typ>\<open>string\<close>, dictionaries
  with a fixed set of keys are records whose optional keys have an \<^typ>\<open>'a option\<close>
  field, \<^verbatim>\<open>None\<close> is \<^term>\<open>None\<close>, and a raised exception is a value.
\<close>

subsection \<open>Python truthiness and string conversion\<close>

text \<open>\<^verbatim>\<open>if s:\<close> for a value that is a string or \<^verbatim>\<open>None\<close>.\<close>

definition truthy :: "string option \<Rightarrow> bool" where
  "truthy s = (case s of None \<Rightarrow> False | Some t \<Rightarrow> t \<noteq> [])"

text \<open>\<^verbatim>\<open>str(n)\<close> for a non-negative integer (a length or a page counter).\<close>

fun str_nat :: "nat \<Rightarrow> string" where
  "str_nat n =
     (if n < 10 then [''0123456789'' ! n]
      else str_nat (n div 10) @ [''0123456789'' ! (n mod 10)])"

declare str_nat.simps [simp del]

subsection \<open>Product configurations\<close>

record product_config =
  name :: string
  collection :: string
  product_type :: string
  instrument :: string
  description :: string
  requires_tile :: bool

definition ODATA_API_URL :: string where
  "ODATA_API_URL = ''https://catalogue.dataspace.copernicus.eu/odata/v1/Products''"

definition PRODUCT_CONFIGS :: "(string \<times> product_config) list" where
  "PRODUCT_CONFIGS =
    [(''sentinel2_l2a'',
        \<lparr>name = ''Sentinel-2 L2A'', collection = ''SENTINEL-2'', product_type = ''S2MSI2A'',
         instrument = ''MSI'',
         description = ''MSI Level-2A Bottom of Atmosphere Reflectance'',
         requires_tile = True\<rparr>),
     (''sentinel3_olci_l1_efr'',
        \<lparr>name = ''Sentinel-3 OLCI L1 EFR'', collection = ''SENTINEL-3'',
         product_type = ''OL_1_EFR___'', instrument = ''OLCI'',
         description = ''OLCI Level-1 Full Resolution'',
         requires_tile = False\<rparr>),
     (''sentinel3_slstr_l1_rbt'',
        \<lparr>name = ''Sentinel-3 SLSTR L1 RBT'', collection = ''SENTINEL-3'',
         product_type = ''SL_1_RBT___'', instrument = ''SLSTR'',
         description = ''SLSTR Level-1 Radiances and Brightness Temperatures'',
         requires_tile = False\<rparr>),
     (''sentinel1_grd'',
        \<lparr>name = ''Sentinel-1 GRD'', collection = ''SENTINEL-1'', product_type = ''GRD'',
         instrument = ''SAR'',
         description = ''SAR Ground Range Detected'',
         requires_tile = False\<rparr>)]"

subsection \<open>\<^verbatim>\<open>build_odata_filter\<close>\<close>

text \<open>
  The bounding box holds the four numbers the caller read from the form. The f-strings
  render them with Python's \<^verbatim>\<open>str\<close>, which is a parameter \<open>str\<close> of the model:
  the embedding does not fix how a float prints.
\<close>

record 'n bbox =
  west :: 'n
  south :: 'n
  east :: 'n
  north :: 'n

text \<open>
  The local variables of the source, one definition each, in the source's order. \<open>apos\<close>
  is the one-character string holding the single quote of an OData string literal.
\<close>

abbreviation apos :: string where
  "apos \<equiv> [CHR 0x27]"

definition collection_filter :: "product_config \<Rightarrow> string" where
  "collection_filter config = ''Collection/Name eq '' @ apos @ collection config @ apos"

definition bbox_polygon :: "('n \<Rightarrow> string) \<Rightarrow> 'n bbox \<Rightarrow> string" where
  "bbox_polygon str bbox =
     ''POLYGON((''
     @ str (west bbox) @ '' '' @ str (south bbox) @ '',''
     @ str (east bbox) @ '' '' @ str (south bbox) @ '',''
     @ str (east bbox) @ '' '' @ str (north bbox) @ '',''
     @ str (west bbox) @ '' '' @ str (north bbox) @ '',''
     @ str (west bbox) @ '' '' @ str (south bbox)
     @ ''))''"

definition spatial_filter :: "('n \<Rightarrow> string) \<Rightarrow> 'n bbox \<Rightarrow> string" where
  "spatial_filter str bbox =
     ''OData.CSC.Intersects(area=geography'SRID=4326;'' @ bbox_polygon str bbox @ apos @ '')''"

definition type_filter :: "product_config \<Rightarrow> string" where
  "type_filter config =
     ''Attributes/OData.CSC.StringAttribute/any(''
     @ ''att:att/Name eq 'productType' and ''
     @ ''att/OData.CSC.StringAttribute/Value eq '' @ apos @ product_type config @ apos
     @ '')''"

definition tile_filter :: "string \<Rightarrow> string" where
  "tile_filter tile = ''contains(Name,'' @ apos @ tile @ apos @ '')''"

definition instrument_filter :: "product_config \<Rightarrow> string" where
  "instrument_filter config =
     ''Attributes/OData.CSC.StringAttribute/any(''
     @ ''att:att/Name eq 'instrumentShortName' and ''
     @ ''att/OData.CSC.StringAttribute/Value eq '' @ apos @ instrument config @ apos
     @ '')''"

definition name_filter :: "product_config \<Rightarrow> string" where
  "name_filter config = ''contains(Name,'' @ apos @ product_type config @ apos @ '')''"

definition temporal_filter :: "string \<Rightarrow> string \<Rightarrow> string" where
  "temporal_filter start_date end_date =
     (let start_time = start_date @ ''T00:00:00.000Z'';
          end_time = end_date @ ''T23:59:59.999Z''
      in ''ContentDate/Start ge '' @ start_time @ '' and ContentDate/Start le '' @ end_time)"

text \<open>
  The function itself. \<open>tile\<close> is \<^verbatim>\<open>None\<close> or a string; \<^verbatim>\<open>if tile:\<close> is
  \<^const>\<open>truthy\<close>. The branch is taken on the collection name, as in the source.
\<close>

definition build_odata_filter ::
  "('n \<Rightarrow> string) \<Rightarrow> product_config \<Rightarrow> 'n bbox \<Rightarrow> string \<Rightarrow> string \<Rightarrow> string option \<Rightarrow> string"
where
  "build_odata_filter str config bbox start_date end_date tile =
     (let odata_filter =
        (if collection config = ''SENTINEL-2'' then
           (if truthy tile then
              collection_filter config @ '' and '' @ type_filter config @ '' and ''
                @ tile_filter (the tile) @ '' and '' @ spatial_filter str bbox
            else
              collection_filter config @ '' and '' @ type_filter config @ '' and ''
                @ spatial_filter str bbox)
         else
           collection_filter config @ '' and '' @ instrument_filter config @ '' and ''
             @ name_filter config @ '' and '' @ spatial_filter str bbox)
      in odata_filter @ '' and '' @ temporal_filter start_date end_date)"

text \<open>
  The specification's reading of the result (its section 4.1, steps 1 to 5): the filter is
  a list of clauses, in the order collection, type and instrument group (with the tile
  clause when there is one), spatial, temporal, joined by the separator \<^verbatim>\<open>" and "\<close>
  (Python's \<^verbatim>\<open>" and ".join(clauses)\<close>). \<open>filter_clauses\<close> is that list, written out
  clause by clause; it uses none of the definitions above.
\<close>

fun join_and :: "string list \<Rightarrow> string" where
  "join_and [] = []"
| "join_and [c] = c"
| "join_and (c # d # cs) = c @ '' and '' @ join_and (d # cs)"

definition filter_clauses ::
  "('n \<Rightarrow> string) \<Rightarrow> product_config \<Rightarrow> 'n bbox \<Rightarrow> string \<Rightarrow> string \<Rightarrow> string option \<Rightarrow> string list"
where
  "filter_clauses str config bbox start_date end_date tile =
     [''Collection/Name eq '' @ apos @ collection config @ apos]
     @ (if collection config = ''SENTINEL-2'' then
          [''Attributes/OData.CSC.StringAttribute/any(att:att/Name eq 'productType' and att/OData.CSC.StringAttribute/Value eq ''
             @ apos @ product_type config @ apos @ '')'']
          @ (if truthy tile then [''contains(Name,'' @ apos @ the tile @ apos @ '')''] else [])
        else
          [''Attributes/OData.CSC.StringAttribute/any(att:att/Name eq 'instrumentShortName' and att/OData.CSC.StringAttribute/Value eq ''
             @ apos @ instrument config @ apos @ '')'',
           ''contains(Name,'' @ apos @ product_type config @ apos @ '')''])
     @ [''OData.CSC.Intersects(area=geography'SRID=4326;POLYGON((''
          @ str (west bbox) @ '' '' @ str (south bbox) @ '',''
          @ str (east bbox) @ '' '' @ str (south bbox) @ '',''
          @ str (east bbox) @ '' '' @ str (north bbox) @ '',''
          @ str (west bbox) @ '' '' @ str (north bbox) @ '',''
          @ str (west bbox) @ '' '' @ str (south bbox) @ ''))'' @ apos @ '')'',
        ''ContentDate/Start ge '' @ start_date @ ''T00:00:00.000Z and ContentDate/Start le ''
          @ end_date @ ''T23:59:59.999Z'']"

subsection \<open>The catalogue endpoint and the progress sink\<close>

text \<open>
  \<^verbatim>\<open>search_products\<close> talks to two things outside the program: the HTTP endpoint
  (\<^verbatim>\<open>requests.get\<close>, \<^verbatim>\<open>raise_for_status\<close>, \<^verbatim>\<open>response.json()\<close>) and the
  callable \<^verbatim>\<open>progress_callback\<close>. Both are parameters of the model.

  A request is either the initial query (URL and query parameters) or a GET on a
  next-page link, with no parameters. The answer to a request is either an exception
  (connection error, timeout, non-2xx status, malformed JSON), which the model keeps as the
  text \<^verbatim>\<open>str(e)\<close>, or the decoded body at its schema type: the \<^verbatim>\<open>value\<close> array
  (empty if the key is missing) and the optional \<^verbatim>\<open>@odata.nextLink\<close>. The records of
  a page are of an arbitrary type \<open>'a\<close>: the search never looks inside them.

  The endpoint may answer the same request differently at different times, so its answer
  is a function of the requests made before (oldest first) and of the request. In the same
  way a call of the sink returns normally (\<^term>\<open>None\<close>) or raises an exception with
  some text, depending on the messages it was given before and on the message.
  Exceptions outside \<^verbatim>\<open>Exception\<close> (a keyboard interrupt) are not modelled.
\<close>

record params =
  p_filter :: string
  p_orderby :: string
  p_top :: int
  p_expand :: string

datatype request = Query string params | Follow string

record 'a page =
  val :: "'a list"
  nextLink :: "string option"

type_synonym 'a http = "request list \<Rightarrow> request \<Rightarrow> string + 'a page"

type_synonym sink = "string list \<Rightarrow> string \<Rightarrow> string option"

text \<open>
  \<^verbatim>\<open>if progress_callback: progress_callback(msg)\<close>. The second component is the list of
  messages handed to the sink so far; a message is recorded whether or not the call raises.
\<close>

definition notify :: "sink option \<Rightarrow> string \<Rightarrow> string list \<Rightarrow> string option \<times> string list" where
  "notify progress_callback msg msgs =
     (case progress_callback of
        None \<Rightarrow> (None, msgs)
      | Some f \<Rightarrow> (f msgs msg, msgs @ [msg]))"

definition found_msg :: "nat \<Rightarrow> string" where
  "found_msg n = ''Found '' @ str_nat n @ '' products in initial query''"

definition fetching_msg :: "nat \<Rightarrow> nat \<Rightarrow> string" where
  "fetching_msg page_count so_far =
     ''Fetching page '' @ str_nat page_count @ ''... (total so far: '' @ str_nat so_far @ '')''"

definition error_msg :: "string \<Rightarrow> string" where
  "error_msg e = ''Error: '' @ e"

subsection \<open>\<^verbatim>\<open>search_products\<close>\<close>

text \<open>
  \<open>max_products\<close> is \<^verbatim>\<open>None\<close> or an integer; \<^verbatim>\<open>if max_products:\<close> holds for an
  integer other than zero.
\<close>

definition truthy_int :: "int option \<Rightarrow> bool" where
  "truthy_int m = (case m of None \<Rightarrow> False | Some k \<Rightarrow> k \<noteq> 0)"

definition top_param :: "int option \<Rightarrow> int" where
  "top_param max_products = (if truthy_int max_products then min (the max_products) 1000 else 1000)"

text \<open>The slice \<^verbatim>\<open>xs[:r]\<close>; a negative \<open>r\<close> counts from the end.\<close>

definition slice_to :: "int \<Rightarrow> 'a list \<Rightarrow> 'a list" where
  "slice_to r xs = (if r < 0 then take (length xs - nat (- r)) xs else take (nat r) xs)"

text \<open>
  The \<^verbatim>\<open>while\<close> loop. Its state is the source's \<open>all_products\<close>, \<open>next_link\<close> and
  \<open>page_count\<close>, together with the messages and requests issued so far. The loop may run
  forever (a chain of links need not end), so the model is a partial function: its value
  is \<^term>\<open>None\<close> when the loop does not return. When it returns, the first component is
  \<open>Inr all_products\<close>, or \<open>Inl e\<close> when an exception with text \<open>e\<close> left the loop.
\<close>

partial_function (option) pagination_loop ::
  "'a http \<Rightarrow> sink option \<Rightarrow> int option \<Rightarrow> 'a list \<Rightarrow> string option \<Rightarrow> nat \<Rightarrow>
   string list \<Rightarrow> request list \<Rightarrow> ((string + 'a list) \<times> string list \<times> request list) option"
where
  "pagination_loop http progress_callback max_products all_products next_link page_count msgs reqs =
     (if truthy next_link
         \<and> (max_products = None \<or> int (length all_products) < the max_products)
      then
        (case notify progress_callback
                (fetching_msg (page_count + 1) (length all_products)) msgs of
           (Some e, msgs') \<Rightarrow> Some (Inl e, msgs', reqs)
         | (None, msgs') \<Rightarrow>
             (case http reqs (Follow (the next_link)) of
                Inl e \<Rightarrow> Some (Inl e, msgs', reqs @ [Follow (the next_link)])
              | Inr result \<Rightarrow>
                  pagination_loop http progress_callback max_products
                    (all_products @
                       (if truthy_int max_products
                        then slice_to (the max_products - int (length all_products)) (val result)
                        else val result))
                    (nextLink result) (page_count + 1) msgs'
                    (reqs @ [Follow (the next_link)])))
      else Some (Inr all_products, msgs, reqs))"

declare pagination_loop.simps [code]

text \<open>The body of the \<^verbatim>\<open>try\<close> block: the initial query, then the loop.\<close>

definition initial_request :: "string \<Rightarrow> int option \<Rightarrow> request" where
  "initial_request odata_filter max_products =
     Query ODATA_API_URL
       \<lparr>p_filter = odata_filter, p_orderby = ''ContentDate/Start asc'',
        p_top = top_param max_products, p_expand = ''Attributes''\<rparr>"

definition search_try ::
  "'a http \<Rightarrow> string \<Rightarrow> int option \<Rightarrow> sink option \<Rightarrow>
   ((string + 'a list) \<times> string list \<times> request list) option"
where
  "search_try http odata_filter max_products progress_callback =
     (let req = initial_request odata_filter max_products in
      case http [] req of
        Inl e \<Rightarrow> Some (Inl e, [], [req])
      | Inr result \<Rightarrow>
          (case notify progress_callback (found_msg (length (val result))) [] of
             (Some e, msgs) \<Rightarrow> Some (Inl e, msgs, [req])
           | (None, msgs) \<Rightarrow>
               pagination_loop http progress_callback max_products ([] @ val result)
                 (nextLink result) 1 msgs [req]))"

text \<open>
  The whole function: the result of a run is what the call did (returned a list, or let an
  exception escape), the messages given to the sink, and the requests made. The
  \<^verbatim>\<open>except Exception\<close> handler reports the exception text and returns the empty list;
  an exception raised by the sink inside the handler is not caught by anything.
\<close>

datatype 'a outcome = Returned "'a list" | Raised string

record 'a run =
  outcome :: "'a outcome"
  messages :: "string list"
  requests :: "request list"

definition search_products ::
  "'a http \<Rightarrow> string \<Rightarrow> int option \<Rightarrow> sink option \<Rightarrow> 'a run option"
where
  "search_products http odata_filter max_products progress_callback =
     (case search_try http odata_filter max_products progress_callback of
        None \<Rightarrow> None
      | Some (Inr all_products, msgs, reqs) \<Rightarrow>
          Some \<lparr>outcome = Returned all_products, messages = msgs, requests = reqs\<rparr>
      | Some (Inl e, msgs, reqs) \<Rightarrow>
          (case notify progress_callback (error_msg e) msgs of
             (None, msgs') \<Rightarrow> Some \<lparr>outcome = Returned [], messages = msgs', requests = reqs\<rparr>
           | (Some e', msgs') \<Rightarrow> Some \<lparr>outcome = Raised e', messages = msgs', requests = reqs\<rparr>))"

text \<open>
  A finite run of pages, as the endpoint serves it: \<open>follows http reqs link pages\<close> says
  that, \<open>reqs\<close> being the requests made so far, following \<open>link\<close> yields the pages
  \<open>pages\<close> one after the other, each page's link leading to the next, and that the
  last link is absent or empty (the loop condition \<^verbatim>\<open>while next_link\<close> is false for
  both). \<open>serves\<close> is the same for the whole search, starting with its first request.
\<close>

fun follows :: "'a http \<Rightarrow> request list \<Rightarrow> string option \<Rightarrow> 'a page list \<Rightarrow> bool" where
  "follows http reqs link [] = (\<not> truthy link)"
| "follows http reqs link (p # ps) =
     (truthy link \<and> http reqs (Follow (the link)) = Inr p
      \<and> follows http (reqs @ [Follow (the link)]) (nextLink p) ps)"

fun serves :: "'a http \<Rightarrow> request \<Rightarrow> 'a page list \<Rightarrow> bool" where
  "serves http req [] = False"
| "serves http req (p # ps) = (http [] req = Inr p \<and> follows http [req] (nextLink p) ps)"

text \<open>The number of page fetches after the first one.\<close>

definition followed :: "request list \<Rightarrow> nat" where
  "followed reqs = length (filter (\<lambda>r. case r of Follow l \<Rightarrow> True | Query u ps \<Rightarrow> False) reqs)"









subsection \<open>Raw product records and product summaries\<close>

text \<open>
  A raw record is the catalogue's JSON object at its schema type. A key that may be
  missing is an option field; \<^verbatim>\<open>dict.get(key, default)\<close> reads it with the default.
\<close>

record content_date =
  Start :: "string option"

record attribute =
  attr_Name :: "string option"
  attr_Value :: "string option"

record raw_product =
  Name :: "string option"
  ContentDate :: "content_date option"
  Online :: "bool option"
  ContentLength :: "int option"
  Attributes :: "attribute list option"
  S3Path :: "string option"

text \<open>
  A Python \<^verbatim>\<open>datetime\<close> is either offset-naive or offset-aware. A naive value is kept as
  the number of microseconds since \<^verbatim>\<open>datetime.min\<close> (0001-01-01T00:00:00, itself
  naive), an aware value as its UTC instant in microseconds on the same scale. Two values
  of the same kind compare by these numbers; comparing a naive with an aware value with
  \<^verbatim>\<open><\<close> raises \<^verbatim>\<open>TypeError\<close>.
\<close>

datatype py_datetime = Naive nat | Aware int

datatype py_error = ValueError | TypeError

definition datetime_min :: py_datetime where
  "datetime_min = Naive 0"

fun instant :: "py_datetime \<Rightarrow> int" where
  "instant (Naive n) = int n"
| "instant (Aware t) = t"

fun comparable :: "py_datetime \<Rightarrow> py_datetime \<Rightarrow> bool" where
  "comparable (Naive a) (Naive b) = True"
| "comparable (Aware a) (Aware b) = True"
| "comparable (Naive a) (Aware b) = False"
| "comparable (Aware a) (Naive b) = False"

fun dt_less :: "py_datetime \<Rightarrow> py_datetime \<Rightarrow> py_error + bool" where
  "dt_less a b = (if comparable a b then Inr (instant a < instant b) else Inl TypeError)"

record product_summary =
  product_name :: string
  acquisition_date :: "py_datetime option"
  datetime :: string
  online :: bool
  size_bytes :: int
  size_mb :: rat
  s3_path :: "string option"

subsection \<open>\<^verbatim>\<open>extract_product_info\<close>\<close>

text \<open>\<^verbatim>\<open>start_str.replace('Z', '+00:00')\<close>: every \<open>Z\<close> is replaced.\<close>

definition replace_Z :: "string \<Rightarrow> string" where
  "replace_Z s = concat (map (\<lambda>c. if c = CHR ''Z'' then ''+00:00'' else [c]) s)"

text \<open>\<^verbatim>\<open>product.get('ContentDate', {}).get('Start', '')\<close>\<close>

definition start_str_of :: "raw_product \<Rightarrow> string" where
  "start_str_of product =
     (case ContentDate product of
        None \<Rightarrow> []
      | Some content_date \<Rightarrow> (case Start content_date of None \<Rightarrow> [] | Some s \<Rightarrow> s))"

text \<open>
  The \<^verbatim>\<open>for attr in product['Attributes']\<close> loop with its \<^verbatim>\<open>break\<close>: the value of
  the first attribute named \<open>S3Path\<close>, and \<^verbatim>\<open>None\<close> (the initial \<open>s3_path\<close>) when
  there is none. \<^verbatim>\<open>attr.get('Value')\<close> is \<^verbatim>\<open>None\<close> for an attribute without value.
\<close>

fun scan_attributes :: "attribute list \<Rightarrow> string option" where
  "scan_attributes [] = None"
| "scan_attributes (attr # attrs) =
     (if attr_Name attr = Some ''S3Path'' then attr_Value attr else scan_attributes attrs)"

definition resolve_s3_path :: "raw_product \<Rightarrow> string option" where
  "resolve_s3_path product =
     (let s3_path =
        (case Attributes product of
           None \<Rightarrow> None
         | Some attrs \<Rightarrow> if attrs \<noteq> [] then scan_attributes attrs else None)
      in if \<not> truthy s3_path \<and> S3Path product \<noteq> None then S3Path product else s3_path)"

text \<open>
  \<^verbatim>\<open>round(size / (1024 * 1024), 2) if size else 0\<close>. Both the quotient and the rounded
  value are floats (IEEE doubles) in Python. A double is kept as the rational number it
  denotes.

  \<open>a / b\<close> on Python integers is the exact quotient rounded to the nearest double, that
  is to 53 significant bits, a tie going to the even neighbour. \<open>bitlen n\<close> is
  \<^verbatim>\<open>n.bit_length()\<close>, and \<open>scale2 x s\<close> is \<open>x\<close> times \<open>2\<close> to the power \<open>s\<close>. In
  \<open>py_truediv\<close> the exponent \<open>e\<close> is the one with \<open>2^e \<le> |a / b| < 2^(e + 1)\<close>, so the
  doubles around the quotient are the multiples of \<open>2^(e - 52)\<close>. The divisor is not
  zero in the source. Quotients beyond the range of normal doubles (byte counts of more
  than a thousand bits, where Python raises \<^verbatim>\<open>OverflowError\<close>) are outside the model.

  \<open>py_round x 2\<close> is the decimal with two places that \<^verbatim>\<open>round(x, 2)\<close> selects for
  the double \<open>x\<close>: the multiple of 1/100 nearest to the exact value of \<open>x\<close>, and the even
  one of the two when \<open>x\<close> lies exactly halfway. The float that Python returns is the
  double nearest to that decimal, the one that prints as it.
\<close>

definition round_half_even :: "rat \<Rightarrow> int" where
  "round_half_even x =
     (let f = \<lfloor>x\<rfloor>; d = x - of_int f
      in if d < 1 / 2 then f else if 1 / 2 < d then f + 1 else if even f then f else f + 1)"

function bitlen :: "int \<Rightarrow> int" where
  "bitlen n = (if n \<le> 0 then 0 else 1 + bitlen (n div 2))"
  by pat_completeness auto
termination
  by (relation "measure nat") auto

declare bitlen.simps [simp del]

definition scale2 :: "rat \<Rightarrow> int \<Rightarrow> rat" where
  "scale2 x s = (if 0 \<le> s then x * 2 ^ nat s else x / 2 ^ nat (- s))"

definition py_truediv :: "int \<Rightarrow> int \<Rightarrow> rat" where
  "py_truediv a b =
     (let x = of_int a / of_int b;
          e0 = bitlen \<bar>a\<bar> - bitlen \<bar>b\<bar>;
          e = (if scale2 1 e0 \<le> \<bar>x\<bar> then e0 else e0 - 1)
      in if x = 0 then 0
         else scale2 (of_int (round_half_even (scale2 x (52 - e)))) (e - 52))"

definition py_round :: "rat \<Rightarrow> nat \<Rightarrow> rat" where
  "py_round x ndigits = of_int (round_half_even (x * 10 ^ ndigits)) / 10 ^ ndigits"

definition size_mb_of :: "int \<Rightarrow> rat" where
  "size_mb_of sz = (if sz \<noteq> 0 then py_round (py_truediv sz (1024 * 1024)) 2 else 0)"

text \<open>
  The body of the \<^verbatim>\<open>for product in products\<close> loop: the summary of one record.
  \<^verbatim>\<open>datetime.fromisoformat\<close> belongs to the Python library and is the parameter
  \<open>fromisoformat\<close>: it returns \<^term>\<open>None\<close> where the library raises
  \<^verbatim>\<open>ValueError\<close>. Nothing catches that exception.
\<close>

definition product_info ::
  "(string \<Rightarrow> py_datetime option) \<Rightarrow> raw_product \<Rightarrow> py_error + product_summary"
where
  "product_info fromisoformat product =
     (let product_name = (case Name product of None \<Rightarrow> [] | Some n \<Rightarrow> n);
          start_str = start_str_of product
      in case (if start_str \<noteq> []
               then (case fromisoformat (replace_Z start_str) of
                       None \<Rightarrow> Inl ValueError
                     | Some d \<Rightarrow> Inr (Some d))
               else Inr None) of
           Inl e \<Rightarrow> Inl e
         | Inr acquisition \<Rightarrow>
             (let s3 = resolve_s3_path product;
                  sz = (case ContentLength product of None \<Rightarrow> 0 | Some n \<Rightarrow> n)
              in Inr \<lparr>product_name = product_name,
                      acquisition_date = acquisition,
                      datetime = start_str,
                      online = (case Online product of None \<Rightarrow> False | Some b \<Rightarrow> b),
                      size_bytes = sz,
                      size_mb = size_mb_of sz,
                      s3_path = s3\<rparr>))"

fun extract_loop ::
  "(string \<Rightarrow> py_datetime option) \<Rightarrow> raw_product list \<Rightarrow> product_summary list \<Rightarrow>
   py_error + product_summary list"
where
  "extract_loop fromisoformat [] product_list = Inr product_list"
| "extract_loop fromisoformat (product # products) product_list =
     (case product_info fromisoformat product of
        Inl e \<Rightarrow> Inl e
      | Inr info \<Rightarrow> extract_loop fromisoformat products (product_list @ [info]))"

text \<open>
  The sort key \<^verbatim>\<open>x['acquisition_date'] if x['acquisition_date'] else datetime.min\<close>
  (a \<^verbatim>\<open>datetime\<close> object is always true).
\<close>

definition date_key :: "product_summary \<Rightarrow> py_datetime" where
  "date_key x = (case acquisition_date x of Some d \<Rightarrow> d | None \<Rightarrow> datetime_min)"

text \<open>
  \<^verbatim>\<open>list.sort(key=...)\<close> belongs to the Python library: a stable comparison sort on
  the keys, which compares them with \<^verbatim>\<open><\<close> (\<^const>\<open>dt_less\<close>). When all keys are of
  one kind no comparison fails and the result is the stable sort. When a naive and an
  aware key are both present the sort raises \<^verbatim>\<open>TypeError\<close>: the comparisons within
  each kind cannot tell which kind goes first, so a sort that orders the list has to
  compare a naive with an aware key.
\<close>

definition py_sort :: "('a \<Rightarrow> py_datetime) \<Rightarrow> 'a list \<Rightarrow> py_error + 'a list" where
  "py_sort key xs =
     (if \<forall>x \<in> set xs. \<forall>y \<in> set xs. dt_less (key x) (key y) \<noteq> Inl TypeError
      then Inr (sort_key (\<lambda>x. instant (key x)) xs)
      else Inl TypeError)"

definition extract_product_info ::
  "(string \<Rightarrow> py_datetime option) \<Rightarrow> raw_product list \<Rightarrow> py_error + product_summary list"
where
  "extract_product_info fromisoformat products =
     (case extract_loop fromisoformat products [] of
        Inl e \<Rightarrow> Inl e
      | Inr product_list \<Rightarrow> py_sort date_key product_list)"

text \<open>
  A parser for concrete evaluations. It knows three strings and agrees with
  \<^verbatim>\<open>datetime.fromisoformat\<close> on the kind of value it returns for them: with a UTC
  offset the value is aware, without an offset it is naive. It rejects every other
  string, among them the ones that are no dates. 2020-01-01 is day 737424 after
  0001-01-01.
\<close>

definition sample_fromisoformat :: "string \<Rightarrow> py_datetime option" where
  "sample_fromisoformat s =
     (if s = ''2020-01-01T00:00:00+00:00'' then Some (Aware 63713433600000000)
      else if s = ''2020-01-01T00:00:00'' then Some (Naive 63713433600000000)
      else if s = ''2021-06-15T12:00:00'' then Some (Naive 63759355200000000)
      else None)"

subsection \<open>Predicates used in the statements\<close>

text \<open>A sink that returns normally whatever it is given; no sink at all counts as one.\<close>

definition quiet :: "sink option \<Rightarrow> bool" where
  "quiet progress_callback = (\<forall>f. progress_callback = Some f \<longrightarrow> (\<forall>h m. f h m = None))"




definition bytes_of :: "raw_product \<Rightarrow> int" where
  "bytes_of product = (case ContentLength product of None \<Rightarrow> 0 | Some n \<Rightarrow> n)"

subsection \<open>Example endpoints, sinks and records\<close>

text \<open>
  A catalogue of three pages holding six records; one whose second page cannot be
  fetched; one that refuses every request; one whose chain of pages never ends (the
  record of each page is the number of requests made before). A sink that accepts every
  message and one that raises on every message.
\<close>

definition example_http :: "nat http" where
  "example_http reqs req =
     (case req of
        Query url ps \<Rightarrow> Inr \<lparr>val = [1, 2], nextLink = Some ''page2''\<rparr>
      | Follow l \<Rightarrow>
          if l = ''page2'' then Inr \<lparr>val = [3, 4, 5], nextLink = Some ''page3''\<rparr>
          else if l = ''page3'' then Inr \<lparr>val = [6], nextLink = None\<rparr>
          else Inl ''404 Client Error'')"



definition endless_http :: "nat http" where
  "endless_http reqs req = Inr \<lparr>val = [length reqs], nextLink = Some ''more''\<rparr>"

definition silent_sink :: sink where
  "silent_sink h m = None"

definition broken_sink :: sink where
  "broken_sink h m = Some ''sink failed''"

definition example_pages :: "nat page list" where
  "example_pages =
     [\<lparr>val = [1, 2], nextLink = Some ''page2''\<rparr>,
      \<lparr>val = [3, 4, 5], nextLink = Some ''page3''\<rparr>,
      \<lparr>val = [6], nextLink = None\<rparr>]"

text \<open>
  Five raw records: one without \<open>ContentDate\<close>, with an \<open>S3Path\<close> attribute and a
  different top-level \<open>S3Path\<close>; one with a UTC timestamp; one whose \<open>Start\<close> is no
  date; one of more than \<open>2^53\<close> bytes; one whose \<open>S3Path\<close> attribute has an empty
  value.
\<close>

definition undated_product :: raw_product where
  "undated_product =
     \<lparr>Name = Some ''S2A_MSIL2A_undated'', ContentDate = None, Online = Some True,
      ContentLength = Some 1572864,
      Attributes = Some [\<lparr>attr_Name = Some ''productType'', attr_Value = Some ''S2MSI2A''\<rparr>,
                         \<lparr>attr_Name = Some ''S3Path'', attr_Value = Some ''/eodata/attr''\<rparr>],
      S3Path = Some ''/eodata/top''\<rparr>"

definition utc_product :: raw_product where
  "utc_product =
     \<lparr>Name = Some ''S2A_MSIL2A_20200101'',
      ContentDate = Some \<lparr>Start = Some ''2020-01-01T00:00:00Z''\<rparr>, Online = Some True,
      ContentLength = Some 131072, Attributes = None, S3Path = None\<rparr>"


definition huge_product :: raw_product where
  "huge_product =
     \<lparr>Name = Some ''S2A_MSIL2A_huge'', ContentDate = None, Online = None,
      ContentLength = Some 9007199254756721, Attributes = None, S3Path = None\<rparr>"

definition empty_attr_product :: raw_product where
  "empty_attr_product =
     \<lparr>Name = Some ''S2A_MSIL2A_empty'', ContentDate = None, Online = None,
      ContentLength = None,
      Attributes = Some [\<lparr>attr_Name = Some ''S3Path'', attr_Value = Some ''''\<rparr>],
      S3Path = Some ''/eodata/top''\<rparr>"

section \<open>Properties\<close>

subsection \<open>The filter string\<close>

text \<open>
  Claim C8. For every configuration, bounding box, pair of dates and optional tile, the
  filter returned by \<^const>\<open>build_odata_filter\<close> is the list of clauses
  \<^const>\<open>filter_clauses\<close> joined by the separator \<^verbatim>\<open>" and "\<close> and by nothing else: the
  collection clause, then the type and instrument group (the product type clause and,
  when there is one, the tile clause; or the instrument clause and the name clause), then
  the spatial clause, then the temporal clause. No clause is empty, and there are four
  clauses for \<open>SENTINEL-2\<close> without a tile and five otherwise.
\<close>

theorem build_odata_filter_clause_order:
  "build_odata_filter str config bbox start_date end_date tile =
     join_and (filter_clauses str config bbox start_date end_date tile)
   \<and> (\<forall>c \<in> set (filter_clauses str config bbox start_date end_date tile). c \<noteq> [])
   \<and> length (filter_clauses str config bbox start_date end_date tile) =
       (if collection config = ''SENTINEL-2'' \<and> \<not> truthy tile then 4 else 5)"
  by (simp add: build_odata_filter_def filter_clauses_def collection_filter_def type_filter_def
      tile_filter_def instrument_filter_def name_filter_def spatial_filter_def bbox_polygon_def
      temporal_filter_def)

theorem build_odata_filter_clause_order_witness:
  "build_odata_filter (\<lambda>x. x) (snd (PRODUCT_CONFIGS ! 3))
        \<lparr>west = ''11.0'', south = ''46.0'', east = ''12.0'', north = ''47.0''\<rparr>
        ''2020-01-01'' ''2020-01-31'' None
     = ''Collection/Name eq 'SENTINEL-1' and Attributes/OData.CSC.StringAttribute/any(att:att/Name eq 'instrumentShortName' and att/OData.CSC.StringAttribute/Value eq 'SAR') and contains(Name,'GRD') and OData.CSC.Intersects(area=geography'SRID=4326;POLYGON((11.0 46.0,12.0 46.0,12.0 47.0,11.0 47.0,11.0 46.0))') and ContentDate/Start ge 2020-01-01T00:00:00.000Z and ContentDate/Start le 2020-01-31T23:59:59.999Z''
   \<and> filter_clauses (\<lambda>x. x) (snd (PRODUCT_CONFIGS ! 3))
        \<lparr>west = ''11.0'', south = ''46.0'', east = ''12.0'', north = ''47.0''\<rparr>
        ''2020-01-01'' ''2020-01-31'' None
     = [''Collection/Name eq 'SENTINEL-1'' @ apos,
        ''Attributes/OData.CSC.StringAttribute/any(att:att/Name eq 'instrumentShortName' and att/OData.CSC.StringAttribute/Value eq 'SAR')'',
        ''contains(Name,'GRD')'',
        ''OData.CSC.Intersects(area=geography'SRID=4326;POLYGON((11.0 46.0,12.0 46.0,12.0 47.0,11.0 47.0,11.0 46.0))')'',
        ''ContentDate/Start ge 2020-01-01T00:00:00.000Z and ContentDate/Start le 2020-01-31T23:59:59.999Z'']"
proof -
  have c: "filter_clauses (\<lambda>x. x) (snd (PRODUCT_CONFIGS ! 3))
        \<lparr>west = ''11.0'', south = ''46.0'', east = ''12.0'', north = ''47.0''\<rparr>
        ''2020-01-01'' ''2020-01-31'' None
     = [''Collection/Name eq 'SENTINEL-1'' @ apos,
        ''Attributes/OData.CSC.StringAttribute/any(att:att/Name eq 'instrumentShortName' and att/OData.CSC.StringAttribute/Value eq 'SAR')'',
        ''contains(Name,'GRD')'',
        ''OData.CSC.Intersects(area=geography'SRID=4326;POLYGON((11.0 46.0,12.0 46.0,12.0 47.0,11.0 47.0,11.0 46.0))')'',
        ''ContentDate/Start ge 2020-01-01T00:00:00.000Z and ContentDate/Start le 2020-01-31T23:59:59.999Z'']"
    by (simp add: filter_clauses_def PRODUCT_CONFIGS_def truthy_def)
  from build_odata_filter_clause_order
         [of "\<lambda>x. x" "snd (PRODUCT_CONFIGS ! 3)"
             "\<lparr>west = ''11.0'', south = ''46.0'', east = ''12.0'', north = ''47.0''\<rparr>"
             "''2020-01-01''" "''2020-01-31''" None]
  show ?thesis unfolding c by simp
qed

lemma tile_changes_filter:
  "(build_odata_filter str config bbox start_date end_date tile
      \<noteq> build_odata_filter str config bbox start_date end_date None)
   \<longleftrightarrow> collection config = ''SENTINEL-2'' \<and> truthy tile"
  by (auto simp: build_odata_filter_def truthy_def tile_filter_def)

text \<open>
  Claim C4, as stated, fails: the function never reads the \<open>requires_tile\<close> flag. For
  a configuration of the collection \<open>SENTINEL-2\<close> whose flag is false, a supplied tile
  still puts the clause \<^verbatim>\<open>contains(Name,'T32TPS')\<close> into the filter. And for the
  built-in Sentinel-1 configuration, whose flag is false, the text of the tile clause for
  the tile \<open>GRD\<close> is in the filter all the same: it is the name clause of the product
  type.
\<close>

theorem tile_clause_without_requires_tile:
  "\<not> (sublist (tile_filter ''T32TPS'')
          (build_odata_filter (\<lambda>x. x)
             \<lparr>name = ''Sentinel-2 L2A'', collection = ''SENTINEL-2'', product_type = ''S2MSI2A'',
              instrument = ''MSI'', description = ''MSI Level-2A Bottom of Atmosphere Reflectance'',
              requires_tile = False\<rparr>
             \<lparr>west = ''11.0'', south = ''46.0'', east = ''12.0'', north = ''47.0''\<rparr>
             ''2020-01-01'' ''2020-01-31'' (Some ''T32TPS''))
        \<longleftrightarrow>
        requires_tile \<lparr>name = ''Sentinel-2 L2A'', collection = ''SENTINEL-2'', product_type = ''S2MSI2A'',
              instrument = ''MSI'', description = ''MSI Level-2A Bottom of Atmosphere Reflectance'',
              requires_tile = False\<rparr> \<and> truthy (Some ''T32TPS''))
   \<and> \<not> (sublist (tile_filter ''GRD'')
          (build_odata_filter (\<lambda>x. x) (snd (PRODUCT_CONFIGS ! 3))
             \<lparr>west = ''11.0'', south = ''46.0'', east = ''12.0'', north = ''47.0''\<rparr>
             ''2020-01-01'' ''2020-01-31'' (Some ''GRD''))
        \<longleftrightarrow>
        requires_tile (snd (PRODUCT_CONFIGS ! 3)) \<and> truthy (Some ''GRD''))"
  by code_simp

text \<open>
  Claim C4, amended. The tile takes part in the filter, that is, the filter differs from
  the one built from the same arguments and no tile, if and only if the collection of the
  configuration is \<open>SENTINEL-2\<close> and a non-empty tile was supplied. In that case the
  filter is the filter without tile with the clause \<^verbatim>\<open>contains(Name,'<tile>')\<close> and one
  separator put in, after a separator and in front of the spatial clause. In every other
  case the tile leaves no trace: the filter is the one built with no tile. For the
  configurations of the built-in table \<^const>\<open>PRODUCT_CONFIGS\<close> the tile takes part in
  the filter if and only if the \<open>requires_tile\<close> flag is true and a non-empty tile was
  supplied.
\<close>

theorem tile_clause_iff_sentinel2:
  "((build_odata_filter str config bbox start_date end_date tile
       \<noteq> build_odata_filter str config bbox start_date end_date None)
     \<longleftrightarrow> collection config = ''SENTINEL-2'' \<and> truthy tile)
   \<and> (collection config = ''SENTINEL-2'' \<and> truthy tile \<longrightarrow>
        (\<exists>pre post.
           build_odata_filter str config bbox start_date end_date None = pre @ post
           \<and> build_odata_filter str config bbox start_date end_date tile
               = pre @ ''contains(Name,'' @ apos @ the tile @ apos @ '') and '' @ post
           \<and> suffix '' and '' pre
           \<and> prefix ''OData.CSC.Intersects('' post))
   \<and> (\<forall>kc \<in> set PRODUCT_CONFIGS.
         (build_odata_filter str (snd kc) bbox start_date end_date tile
            \<noteq> build_odata_filter str (snd kc) bbox start_date end_date None)
         \<longleftrightarrow> requires_tile (snd kc) \<and> truthy tile)"
proof (intro conjI impI)
  show "(build_odata_filter str config bbox start_date end_date tile
       \<noteq> build_odata_filter str config bbox start_date end_date None)
     \<longleftrightarrow> collection config = ''SENTINEL-2'' \<and> truthy tile"
    by (rule tile_changes_filter)
next
  assume a: "collection config = ''SENTINEL-2'' \<and> truthy tile"
  let ?pre = "collection_filter config @ '' and '' @ type_filter config @ '' and ''"
  let ?post = "spatial_filter str bbox @ '' and '' @ temporal_filter start_date end_date"
  have "build_odata_filter str config bbox start_date end_date None = ?pre @ ?post"
    using a by (simp add: build_odata_filter_def truthy_def)
  moreover have "build_odata_filter str config bbox start_date end_date tile
               = ?pre @ ''contains(Name,'' @ apos @ the tile @ apos @ '') and '' @ ?post"
    using a by (simp add: build_odata_filter_def tile_filter_def)
  moreover have "suffix '' and '' ?pre"
    by (simp add: suffix_def)
  moreover have "prefix ''OData.CSC.Intersects('' ?post"
    by (simp add: spatial_filter_def)
  ultimately show "\<exists>pre post.
           build_odata_filter str config bbox start_date end_date None = pre @ post
           \<and> build_odata_filter str config bbox start_date end_date tile
               = pre @ ''contains(Name,'' @ apos @ the tile @ apos @ '') and '' @ post
           \<and> suffix '' and '' pre
           \<and> prefix ''OData.CSC.Intersects('' post"
    by blast
next
  show "\<forall>kc \<in> set PRODUCT_CONFIGS.
         (build_odata_filter str (snd kc) bbox start_date end_date tile
            \<noteq> build_odata_filter str (snd kc) bbox start_date end_date None)
         \<longleftrightarrow> requires_tile (snd kc) \<and> truthy tile"
    unfolding tile_changes_filter by (simp add: PRODUCT_CONFIGS_def)
qed

theorem tile_clause_iff_sentinel2_witness:
  "build_odata_filter (\<lambda>x. x) (snd (hd PRODUCT_CONFIGS))
        \<lparr>west = ''11.0'', south = ''46.0'', east = ''12.0'', north = ''47.0''\<rparr>
        ''2020-01-01'' ''2020-01-31'' (Some ''T32TPS'')
     \<noteq> build_odata_filter (\<lambda>x. x) (snd (hd PRODUCT_CONFIGS))
        \<lparr>west = ''11.0'', south = ''46.0'', east = ''12.0'', north = ''47.0''\<rparr>
        ''2020-01-01'' ''2020-01-31'' None
   \<and> build_odata_filter (\<lambda>x. x) (snd (hd PRODUCT_CONFIGS))
        \<lparr>west = ''11.0'', south = ''46.0'', east = ''12.0'', north = ''47.0''\<rparr>
        ''2020-01-01'' ''2020-01-31'' (Some ''T32TPS'')
      = ''Collection/Name eq 'SENTINEL-2' and Attributes/OData.CSC.StringAttribute/any(att:att/Name eq 'productType' and att/OData.CSC.StringAttribute/Value eq 'S2MSI2A') and contains(Name,'T32TPS') and OData.CSC.Intersects(area=geography'SRID=4326;POLYGON((11.0 46.0,12.0 46.0,12.0 47.0,11.0 47.0,11.0 46.0))') and ContentDate/Start ge 2020-01-01T00:00:00.000Z and ContentDate/Start le 2020-01-31T23:59:59.999Z''
   \<and> build_odata_filter (\<lambda>x. x) (snd (PRODUCT_CONFIGS ! 3))
        \<lparr>west = ''11.0'', south = ''46.0'', east = ''12.0'', north = ''47.0''\<rparr>
        ''2020-01-01'' ''2020-01-31'' (Some ''GRD'')
     = build_odata_filter (\<lambda>x. x) (snd (PRODUCT_CONFIGS ! 3))
        \<lparr>west = ''11.0'', south = ''46.0'', east = ''12.0'', north = ''47.0''\<rparr>
        ''2020-01-01'' ''2020-01-31'' None"
proof -
  have c: "collection (snd (hd PRODUCT_CONFIGS)) = ''SENTINEL-2''"
    and d: "collection (snd (PRODUCT_CONFIGS ! 3)) \<noteq> ''SENTINEL-2''"
    by (simp_all add: PRODUCT_CONFIGS_def)
  have t: "truthy (Some ''T32TPS'')"
    by (simp add: truthy_def)
  have l: "build_odata_filter (\<lambda>x. x) (snd (hd PRODUCT_CONFIGS))
        \<lparr>west = ''11.0'', south = ''46.0'', east = ''12.0'', north = ''47.0''\<rparr>
        ''2020-01-01'' ''2020-01-31'' (Some ''T32TPS'')
      = ''Collection/Name eq 'SENTINEL-2' and Attributes/OData.CSC.StringAttribute/any(att:att/Name eq 'productType' and att/OData.CSC.StringAttribute/Value eq 'S2MSI2A') and contains(Name,'T32TPS') and OData.CSC.Intersects(area=geography'SRID=4326;POLYGON((11.0 46.0,12.0 46.0,12.0 47.0,11.0 47.0,11.0 46.0))') and ContentDate/Start ge 2020-01-01T00:00:00.000Z and ContentDate/Start le 2020-01-31T23:59:59.999Z''"
    by code_simp
  from tile_clause_iff_sentinel2
         [of "\<lambda>x. x" "snd (hd PRODUCT_CONFIGS)"
             "\<lparr>west = ''11.0'', south = ''46.0'', east = ''12.0'', north = ''47.0''\<rparr>"
             "''2020-01-01''" "''2020-01-31''" "Some ''T32TPS''"]
       tile_clause_iff_sentinel2
         [of "\<lambda>x. x" "snd (PRODUCT_CONFIGS ! 3)"
             "\<lparr>west = ''11.0'', south = ''46.0'', east = ''12.0'', north = ''47.0''\<rparr>"
             "''2020-01-01''" "''2020-01-31''" "Some ''GRD''"]
       c d t l
  show ?thesis by blast
qed

subsection \<open>The paginated search: auxiliary facts\<close>

lemma notify_quiet:
  "quiet cb \<Longrightarrow> \<exists>msgs'. notify cb m msgs = (None, msgs')"
  by (cases cb) (auto simp: quiet_def notify_def)

lemma take_step:
  "n \<le> k \<Longrightarrow> take (k - n) xs @ take (k - (n + length (take (k - n) xs))) ys = take (k - n) (xs @ ys)"
  by (cases "length xs \<le> k - n") (auto simp: min_def)

lemma loop_capped:
  assumes "quiet cb" and "0 < K"
  shows "follows http reqs link ps \<Longrightarrow>
     \<exists>msgs' reqs'. pagination_loop http cb (Some K) acc link pc msgs reqs =
        Some (Inr (acc @ take (nat K - length acc) (concat (map val ps))), msgs', reqs')"
proof (induction ps arbitrary: acc link pc msgs reqs)
  case Nil
  then show ?case by (subst pagination_loop.simps) simp
next
  case (Cons p ps)
  show ?case
  proof (cases "int (length acc) < K")
    case False
    then have "nat K - length acc = 0" by linarith
    with False show ?thesis by (subst pagination_loop.simps) simp
  next
    case True
    obtain msgs1 where n: "notify cb (fetching_msg (pc + 1) (length acc)) msgs = (None, msgs1)"
      using notify_quiet[OF assms(1)] by blast
    let ?acc = "acc @ take (nat K - length acc) (val p)"
    from Cons.prems have f: "follows http (reqs @ [Follow (the link)]) (nextLink p) ps"
      and h: "http reqs (Follow (the link)) = Inr p" and t: "truthy link" by simp_all
    from Cons.IH[OF f, of ?acc "pc + 1" msgs1]
    obtain msgs' reqs' where
      r: "pagination_loop http cb (Some K) ?acc (nextLink p) (pc + 1) msgs1 (reqs @ [Follow (the link)])
          = Some (Inr (?acc @ take (nat K - length ?acc) (concat (map val ps))), msgs', reqs')"
      by blast
    have s: "slice_to (K - int (length acc)) (val p) = take (nat K - length acc) (val p)"
      using True by (simp add: slice_to_def nat_diff_distrib')
    have e: "?acc @ take (nat K - length ?acc) (concat (map val ps))
             = acc @ take (nat K - length acc) (concat (map val (p # ps)))"
      using True take_step[of "length acc" "nat K" "val p" "concat (map val ps)"] by simp
    show ?thesis
      using True t n h r s e assms(2)
      by (subst pagination_loop.simps) (simp add: truthy_int_def)
  qed
qed


lemma loop_pages:
  assumes "quiet cb"
  shows "follows http reqs link ps \<Longrightarrow>
     \<exists>reqs'. pagination_loop http cb None acc link pc msgs reqs =
        Some (Inr (acc @ concat (map val ps)),
              msgs @ (if cb = None then []
                      else map (\<lambda>i. fetching_msg (pc + 1 + i)
                                 (length acc + length (concat (map val (take i ps)))))
                         [0..<length ps]),
              reqs')"
proof (induction ps arbitrary: acc link pc msgs reqs)
  case Nil
  then show ?case by (subst pagination_loop.simps) simp
next
  case (Cons p ps)
  from Cons.prems have f: "follows http (reqs @ [Follow (the link)]) (nextLink p) ps"
    and h: "http reqs (Follow (the link)) = Inr p" and t: "truthy link" by simp_all
  let ?m = "fetching_msg (pc + 1) (length acc)"
  let ?next = "if cb = None then msgs else msgs @ [?m]"
  have n: "notify cb ?m msgs = (None, ?next)"
    using assms by (cases cb) (auto simp: notify_def quiet_def)
  from Cons.IH[OF f, of "acc @ val p" "pc + 1" ?next]
  obtain reqs' where
    r: "pagination_loop http cb None (acc @ val p) (nextLink p) (pc + 1) ?next
          (reqs @ [Follow (the link)])
        = Some (Inr ((acc @ val p) @ concat (map val ps)),
                ?next @ (if cb = None then []
                          else map (\<lambda>i. fetching_msg (pc + 1 + 1 + i)
                     (length (acc @ val p) + length (concat (map val (take i ps)))))
                   [0..<length ps]),
                reqs')"
    by blast
  show ?case
    using t h r n
    by (subst pagination_loop.simps)
       (simp add: truthy_int_def map_upt_Suc add.assoc del: upt_Suc)
qed

lemma followed_append: "followed (reqs @ [Follow l]) = Suc (followed reqs)"
  by (simp add: followed_def)

lemma loop_terminates:
  assumes nonempty: "\<forall>h req p. http h req = Inr p \<longrightarrow> val p \<noteq> []" and K: "0 < K"
  shows "\<exists>res msgs' reqs'. pagination_loop http cb (Some K) acc link pc msgs reqs =
            Some (res, msgs', reqs')
          \<and> followed reqs' \<le> followed reqs + (nat K - length acc)"
proof (induction "nat K - length acc" arbitrary: acc link pc msgs reqs rule: less_induct)
  case less
  show ?case
  proof (cases "truthy link \<and> int (length acc) < K")
    case False
    then show ?thesis by (subst pagination_loop.simps) auto
  next
    case True
    then have pos: "0 < nat K - length acc" by linarith
    obtain r1 msgs1 where n: "notify cb (fetching_msg (pc + 1) (length acc)) msgs = (r1, msgs1)"
      by (cases "notify cb (fetching_msg (pc + 1) (length acc)) msgs")
    show ?thesis
    proof (cases r1)
      case (Some e)
      with True n show ?thesis by (subst pagination_loop.simps) simp
    next
      case None
      show ?thesis
      proof (cases "http reqs (Follow (the link))")
        case (Inl e)
        with True n None pos show ?thesis
          by (subst pagination_loop.simps) (simp add: followed_append)
      next
        case (Inr p)
        with nonempty have ne: "val p \<noteq> []" by blast
        let ?acc = "acc @ slice_to (K - int (length acc)) (val p)"
        have s: "slice_to (K - int (length acc)) (val p) = take (nat K - length acc) (val p)"
          using True by (simp add: slice_to_def nat_diff_distrib')
        have longer: "length acc < length ?acc"
          unfolding s using ne pos by (cases "val p") simp_all
        have le: "length ?acc \<le> nat K"
          using pos by (auto simp: s min_def)
        from longer le have dec: "nat K - length ?acc < nat K - length acc" by linarith
        from less[OF dec, of "nextLink p" "pc + 1" msgs1 "reqs @ [Follow (the link)]"]
        obtain res msgs' reqs' where
          r: "pagination_loop http cb (Some K) ?acc (nextLink p) (pc + 1) msgs1
                (reqs @ [Follow (the link)]) = Some (res, msgs', reqs')"
          and b: "followed reqs' \<le> followed (reqs @ [Follow (the link)]) + (nat K - length ?acc)"
          by blast
        from b dec have "followed reqs' \<le> followed reqs + (nat K - length acc)"
          by (simp add: followed_append)
        with True n None Inr r K show ?thesis
          by (subst pagination_loop.simps) (simp add: truthy_int_def)
      qed
    qed
  qed
qed


















lemma serves_example: "serves example_http (initial_request odata_filter max_products) example_pages"
  by (simp add: example_pages_def example_http_def initial_request_def truthy_def)

subsection \<open>The paginated search: exceptions\<close>




subsection \<open>The paginated search: the result cap\<close>

text \<open>
  Claim C2, as stated, fails: only the pages after the first are truncated. With
  \<open>max_products = 1\<close> and a first page of two records, both are returned.
\<close>

theorem first_page_not_truncated:
  "serves example_http (initial_request ''f'' (Some 1)) example_pages
   \<and> 1 < length (concat (map val example_pages))
   \<and> map_option outcome (search_products example_http ''f'' (Some 1) (Some silent_sink))
       = Some (Returned [1, 2])"
proof -
  have "map_option outcome (search_products example_http ''f'' (Some 1) (Some silent_sink))
       = Some (Returned [1, 2])"
    by code_simp
  moreover have "1 < length (concat (map val example_pages))"
    by (simp add: example_pages_def)
  ultimately show ?thesis using serves_example by simp
qed

text \<open>
  Claim C2, amended. Let \<open>K \<ge> 1\<close>, let every page of a finite run of pages be fetched
  without an exception, let the sink not raise, let the first page hold at most \<open>K\<close>
  records (what the request parameter \<open>$top = min(K, 1000)\<close> asks of the endpoint), and
  let the pages together hold more than \<open>K\<close> records. Then \<^const>\<open>search_products\<close>
  returns exactly \<open>K\<close> records: the first \<open>K\<close> of the concatenated pages, so that the
  page that crosses the boundary is cut, in order, at the remaining quota.
\<close>

theorem cap_enforced_after_first_page:
  assumes "1 \<le> K" and "quiet progress_callback"
    and "serves http (initial_request odata_filter (Some K)) pages"
    and "length (val (hd pages)) \<le> nat K"
    and "nat K < length (concat (map val pages))"
  shows "\<exists>r. search_products http odata_filter (Some K) progress_callback = Some r
             \<and> outcome r = Returned (take (nat K) (concat (map val pages)))
             \<and> length (take (nat K) (concat (map val pages))) = nat K"
proof -
  from assms(3) obtain p ps where pages: "pages = p # ps" by (cases pages) auto
  let ?req = "initial_request odata_filter (Some K)"
  from assms(3) pages have h: "http [] ?req = Inr p"
    and f: "follows http [?req] (nextLink p) ps" by simp_all
  obtain msgs1 where n: "notify progress_callback (found_msg (length (val p))) [] = (None, msgs1)"
    using notify_quiet[OF assms(2)] by blast
  from assms(1) have K: "0 < K" by simp
  from loop_capped[OF assms(2) K f, of "val p" 1 msgs1] obtain msgs' reqs' where
    l: "pagination_loop http progress_callback (Some K) (val p) (nextLink p) 1 msgs1 [?req]
        = Some (Inr (val p @ take (nat K - length (val p)) (concat (map val ps))), msgs', reqs')"
    by blast
  have e: "val p @ take (nat K - length (val p)) (concat (map val ps))
           = take (nat K) (concat (map val pages))"
    using assms(4) pages by simp
  have t: "search_try http odata_filter (Some K) progress_callback
           = Some (Inr (take (nat K) (concat (map val pages))), msgs', reqs')"
    using h n l e by (simp add: search_try_def)
  have "search_products http odata_filter (Some K) progress_callback
        = Some \<lparr>outcome = Returned (take (nat K) (concat (map val pages))),
                messages = msgs', requests = reqs'\<rparr>"
    by (simp add: search_products_def t)
  moreover have "length (take (nat K) (concat (map val pages))) = nat K"
    using assms(5) by simp
  ultimately show ?thesis by simp
qed

theorem cap_enforced_after_first_page_witness:
  "\<exists>r. search_products example_http ''f'' (Some 4) (Some silent_sink) = Some r
       \<and> outcome r = Returned [1, 2, 3, 4]"
proof -
  have q: "quiet (Some silent_sink)"
    by (simp add: quiet_def silent_sink_def)
  have a: "length (val (hd example_pages)) \<le> nat 4"
    by (simp add: example_pages_def)
  have b: "nat 4 < length (concat (map val example_pages))"
    by (simp add: example_pages_def)
  have c: "take (nat 4) (concat (map val example_pages)) = [1, 2, 3, 4]"
    by (simp add: example_pages_def)
  have k: "(1::int) \<le> 4" by simp
  from cap_enforced_after_first_page[OF k q serves_example a b, of "''f''"] c
  show ?thesis by auto
qed

subsection \<open>The paginated search without a cap\<close>

text \<open>
  Claim C3, as stated, fails: it says nothing of the sink. For the three pages of the
  example, a sink that raises makes the search raise after the first page, and with no
  sink the six records are returned but no message is emitted.
\<close>

theorem sink_breaks_pagination:
  "serves example_http (initial_request ''f'' None) example_pages
   \<and> search_products example_http ''f'' None (Some broken_sink) =
       Some \<lparr>outcome = Raised ''sink failed'',
             messages = [''Found 2 products in initial query'', ''Error: sink failed''],
             requests = [initial_request ''f'' None]\<rparr>
   \<and> search_products example_http ''f'' None None =
       Some \<lparr>outcome = Returned [1, 2, 3, 4, 5, 6], messages = [],
             requests = [initial_request ''f'' None, Follow ''page2'', Follow ''page3'']\<rparr>"
proof -
  have "search_products example_http ''f'' None (Some broken_sink) =
       Some \<lparr>outcome = Raised ''sink failed'',
             messages = [''Found 2 products in initial query'', ''Error: sink failed''],
             requests = [initial_request ''f'' None]\<rparr>"
    by code_simp
  moreover have "search_products example_http ''f'' None None =
       Some \<lparr>outcome = Returned [1, 2, 3, 4, 5, 6], messages = [],
             requests = [initial_request ''f'' None, Follow ''page2'', Follow ''page3'']\<rparr>"
    by code_simp
  ultimately show ?thesis using serves_example by simp
qed

text \<open>
  Claim C3, amended. For a finite run of \<open>N \<ge> 1\<close> pages fetched without failure, each
  carrying a next-page link except the last (a link that is a non-empty string, which is
  what \<^verbatim>\<open>while next_link\<close> tests), no \<open>max_products\<close>, and a sink that is absent or
  returns normally on every message, \<^const>\<open>search_products\<close> returns the concatenation
  of the pages' records in page order. A sink that is present receives \<open>N\<close> messages: the
  message of the initial query with the size of the first page, then, for each further
  page \<open>i + 2\<close>, one message with that page number and the number of records accumulated
  from the pages before it. Without a sink no message is emitted.
\<close>

theorem pagination_concatenates_pages:
  assumes "serves http (initial_request odata_filter None) pages"
    and "quiet progress_callback"
  shows "\<exists>r. search_products http odata_filter None progress_callback = Some r
             \<and> outcome r = Returned (concat (map val pages))
             \<and> messages r =
                 (if progress_callback = None then []
                  else found_msg (length (val (hd pages)))
                       # map (\<lambda>i. fetching_msg (i + 2)
                                   (length (concat (map val (take (i + 1) pages)))))
                             [0..<length pages - 1])
             \<and> (progress_callback \<noteq> None \<longrightarrow> length (messages r) = length pages)"
proof -
  from assms(1) obtain p ps where pages: "pages = p # ps" by (cases pages) auto
  let ?req = "initial_request odata_filter None"
  from assms(1) pages have h: "http [] ?req = Inr p"
    and fl: "follows http [?req] (nextLink p) ps" by simp_all
  let ?m0 = "found_msg (length (val p))"
  let ?first = "if progress_callback = None then [] else [?m0]"
  have n: "notify progress_callback ?m0 [] = (None, ?first)"
    using assms(2) by (cases progress_callback) (auto simp: notify_def quiet_def)
  from loop_pages[OF assms(2) fl, of "val p" 1 ?first] obtain reqs' where
    l: "pagination_loop http progress_callback None (val p) (nextLink p) 1 ?first [?req]
        = Some (Inr (val p @ concat (map val ps)),
                ?first @ (if progress_callback = None then []
                          else map (\<lambda>i. fetching_msg (1 + 1 + i)
                                 (length (val p) + length (concat (map val (take i ps)))))
                         [0..<length ps]),
                reqs')"
    by blast
  let ?msgs = "if progress_callback = None then []
                  else found_msg (length (val (hd pages)))
                       # map (\<lambda>i. fetching_msg (i + 2)
                                   (length (concat (map val (take (i + 1) pages)))))
                             [0..<length pages - 1]"
  have m: "?first @ (if progress_callback = None then []
                          else map (\<lambda>i. fetching_msg (1 + 1 + i)
                                 (length (val p) + length (concat (map val (take i ps)))))
                         [0..<length ps]) = ?msgs"
    by (cases progress_callback) (simp_all add: pages add.commute)
  have t: "search_try http odata_filter None progress_callback
           = Some (Inr (concat (map val pages)), ?msgs, reqs')"
    using h l n unfolding m by (simp add: search_try_def pages)
  have "search_products http odata_filter None progress_callback
        = Some \<lparr>outcome = Returned (concat (map val pages)), messages = ?msgs, requests = reqs'\<rparr>"
    by (simp add: search_products_def t)
  moreover have "progress_callback \<noteq> None \<longrightarrow> length ?msgs = length pages"
    by (cases progress_callback) (simp_all add: pages)
  ultimately show ?thesis by simp
qed

theorem pagination_concatenates_pages_witness:
  "\<exists>r. search_products example_http ''f'' None (Some silent_sink) = Some r
       \<and> outcome r = Returned [1, 2, 3, 4, 5, 6]
       \<and> messages r = [''Found 2 products in initial query'',
                        ''Fetching page 2... (total so far: 2)'',
                        ''Fetching page 3... (total so far: 5)'']"
proof -
  have q: "quiet (Some silent_sink)"
    by (simp add: quiet_def silent_sink_def)
  have a: "concat (map val example_pages) = [1, 2, 3, 4, 5, 6]"
    by (simp add: example_pages_def)
  have b: "found_msg (length (val (hd example_pages)))
           # map (\<lambda>i. fetching_msg (i + 2) (length (concat (map val (take (i + 1) example_pages)))))
                 [0..<length example_pages - 1]
           = [''Found 2 products in initial query'',
              ''Fetching page 2... (total so far: 2)'',
              ''Fetching page 3... (total so far: 5)'']"
    by code_simp
  from pagination_concatenates_pages[OF serves_example q, of "''f''"]
  show ?thesis unfolding a b by auto
qed

subsection \<open>Termination under a cap\<close>

text \<open>
  Claim C10. For \<open>K \<ge> 1\<close> and an endpoint all of whose pages hold at least one record,
  \<^const>\<open>search_products\<close> returns, also when the chain of next-page links never ends,
  and it fetches at most \<open>K\<close> pages after the first. (The loop adds at least one
  record per page, and stops at \<open>K\<close> records.)
\<close>

theorem capped_search_terminates:
  assumes "1 \<le> K" and "\<forall>h req p. http h req = Inr p \<longrightarrow> val p \<noteq> []"
  shows "\<exists>r. search_products http odata_filter (Some K) progress_callback = Some r
             \<and> followed (requests r) \<le> nat K"
proof -
  let ?req = "initial_request odata_filter (Some K)"
  from assms(1) have K: "0 < K" by simp
  have "\<exists>res msgs reqs. search_try http odata_filter (Some K) progress_callback
            = Some (res, msgs, reqs) \<and> followed reqs \<le> nat K"
  proof (cases "http [] ?req")
    case (Inl e)
    then show ?thesis by (simp add: search_try_def followed_def initial_request_def)
  next
    case (Inr p)
    obtain r1 msgs1 where n: "notify progress_callback (found_msg (length (val p))) [] = (r1, msgs1)"
      by (cases "notify progress_callback (found_msg (length (val p))) []")
    show ?thesis
    proof (cases r1)
      case (Some e)
      with Inr n show ?thesis by (simp add: search_try_def followed_def initial_request_def)
    next
      case None
      from loop_terminates[OF assms(2) K, of progress_callback "val p" "nextLink p" 1 msgs1 "[?req]"]
      obtain res msgs' reqs' where
        l: "pagination_loop http progress_callback (Some K) (val p) (nextLink p) 1 msgs1 [?req]
            = Some (res, msgs', reqs')"
        and b: "followed reqs' \<le> followed [?req] + (nat K - length (val p))"
        by blast
      have "followed [?req] = 0" by (simp add: followed_def initial_request_def)
      with b have "followed reqs' \<le> nat K" by simp
      with Inr n None l show ?thesis by (simp add: search_try_def)
    qed
  qed
  then obtain res msgs reqs where
    t: "search_try http odata_filter (Some K) progress_callback = Some (res, msgs, reqs)"
    and b: "followed reqs \<le> nat K" by blast
  show ?thesis
  proof (cases res)
    case (Inr ps)
    with t b show ?thesis by (simp add: search_products_def)
  next
    case (Inl e)
    obtain r2 msgs2 where n: "notify progress_callback (error_msg e) msgs = (r2, msgs2)"
      by (cases "notify progress_callback (error_msg e) msgs")
    with t b Inl show ?thesis by (cases r2) (simp_all add: search_products_def)
  qed
qed

theorem capped_search_terminates_witness:
  "search_products endless_http ''f'' (Some 3) None =
     Some \<lparr>outcome = Returned [0, 1, 2], messages = [],
           requests = [initial_request ''f'' (Some 3), Follow ''more'', Follow ''more'']\<rparr>
   \<and> (\<exists>r. search_products endless_http ''f'' (Some 3) None = Some r
          \<and> followed (requests r) \<le> nat 3)"
proof -
  have k: "(1::int) \<le> 3" by simp
  have ne: "\<forall>h req p. endless_http h req = Inr p \<longrightarrow> val p \<noteq> []"
    by (auto simp: endless_http_def)
  have "search_products endless_http ''f'' (Some 3) None =
     Some \<lparr>outcome = Returned [0, 1, 2], messages = [],
           requests = [initial_request ''f'' (Some 3), Follow ''more'', Follow ''more'']\<rparr>"
    by code_simp
  with capped_search_terminates[OF k ne, of "''f''" None] show ?thesis by simp
qed

subsection \<open>The normaliser: auxiliary facts\<close>







lemma scan_attributes_find:
  "scan_attributes attrs =
     (case find (\<lambda>a. attr_Name a = Some ''S3Path'') attrs of
        None \<Rightarrow> None | Some a \<Rightarrow> attr_Value a)"
  by (induction attrs) simp_all

lemma product_info_s3_path:
  "product_info f p = Inr info \<Longrightarrow> s3_path info = resolve_s3_path p"
  by (auto simp: product_info_def Let_def split: if_splits option.splits)

lemma product_info_size:
  "product_info f p = Inr info \<Longrightarrow>
   size_bytes info = bytes_of p \<and> size_mb info = size_mb_of (bytes_of p)"
  by (auto simp: product_info_def Let_def bytes_of_def split: if_splits option.splits)

lemma bitlen_le: "0 \<le> n \<Longrightarrow> n < 2 ^ k \<Longrightarrow> bitlen n \<le> int k"
proof (induction k arbitrary: n)
  case 0
  then have "n = 0" by simp
  then show ?case by (simp add: bitlen.simps)
next
  case (Suc k)
  show ?case
  proof (cases "n \<le> 0")
    case True
    then show ?thesis by (simp add: bitlen.simps)
  next
    case False
    with Suc.prems have "0 \<le> n div 2" "n div 2 < 2 ^ k" by auto
    from Suc.IH[OF this] False show ?thesis by (subst bitlen.simps) simp
  qed
qed

lemma bitlen_mb: "bitlen 1048576 = 21"
  by code_simp

lemma round_half_even_int: "round_half_even (of_int m) = m"
  by (simp add: round_half_even_def)

lemma truediv_exact:
  assumes "\<bar>n\<bar> < 2 ^ 53"
  shows "py_truediv n (1024 * 1024) = of_int n / 1048576"
proof (cases "n = 0")
  case True
  then show ?thesis by (simp add: py_truediv_def)
next
  case False
  define x :: rat where "x = of_int n / of_int (1024 * 1024)"
  define e0 where "e0 = bitlen \<bar>n\<bar> - bitlen \<bar>1024 * 1024\<bar>"
  define e where "e = (if scale2 1 e0 \<le> \<bar>x\<bar> then e0 else e0 - 1)"
  have x0: "x \<noteq> 0" using False by (simp add: x_def)
  from bitlen_le[of "\<bar>n\<bar>" 53] assms have "bitlen \<bar>n\<bar> \<le> 53" by simp
  then have "e0 \<le> 32" by (simp add: e0_def bitlen_mb)
  then have e: "e \<le> 32" by (simp add: e_def)
  define k where "k = nat (32 - e)"
  from e have s: "nat (52 - e) = 20 + k" by (simp add: k_def)
  have "scale2 x (52 - e) = x * 2 ^ (20 + k)"
    using e by (simp add: scale2_def s)
  also have "\<dots> = of_int (n * 2 ^ k)"
    by (simp add: x_def power_add)
  finally have sc: "scale2 x (52 - e) = of_int (n * 2 ^ k)" .
  have neg: "\<not> 0 \<le> e - 52" and bk: "nat (- (e - 52)) = 20 + k"
    using e s by simp_all
  have rd: "round_half_even (scale2 x (52 - e)) = n * 2 ^ k"
    by (simp only: sc round_half_even_int)
  have "scale2 (of_int (round_half_even (scale2 x (52 - e)))) (e - 52)
        = scale2 (of_int (n * 2 ^ k)) (e - 52)"
    by (simp only: rd)
  also have "\<dots> = of_int (n * 2 ^ k) / 2 ^ (20 + k)"
    by (simp only: scale2_def neg bk if_False)
  also have "\<dots> = x"
    by (simp add: x_def power_add)
  finally have "scale2 (of_int (round_half_even (scale2 x (52 - e)))) (e - 52) = x" .
  then have "py_truediv n (1024 * 1024) = x"
    using x0 unfolding py_truediv_def Let_def x_def[symmetric] e0_def[symmetric] e_def[symmetric]
    by simp
  then show ?thesis by (simp add: x_def)
qed

lemma round_half_even_close: "\<bar>x - of_int (round_half_even x)\<bar> \<le> 1 / 2"
proof -
  have "of_int \<lfloor>x\<rfloor> \<le> x" "x < of_int \<lfloor>x\<rfloor> + 1" by linarith+
  then show ?thesis
    by (auto simp: round_half_even_def Let_def)
qed

lemma py_round_2_close: "\<bar>x - py_round x 2\<bar> \<le> 1 / 200"
proof -
  have "\<bar>x * 100 - of_int (round_half_even (x * 100))\<bar> \<le> 1 / 2"
    by (rule round_half_even_close)
  then have "\<bar>(x * 100 - of_int (round_half_even (x * 100))) / 100\<bar> \<le> (1 / 2) / 100"
    by (simp only: abs_divide abs_numeral divide_le_cancel) simp
  then show ?thesis by (simp add: py_round_def diff_divide_distrib)
qed

subsection \<open>The normaliser: acquisition timestamps\<close>




text \<open>
  Claim C6 does not hold of the code. The key of a record without timestamp is
  \<^verbatim>\<open>datetime.min\<close>, which is offset-naive; the timestamp parsed from a string that
  ends in \<open>Z\<close> is offset-aware. A list with a record of each kind cannot be sorted:
  the comparison raises \<^verbatim>\<open>TypeError\<close>, where the claim puts the record without
  timestamp first.
\<close>

theorem undated_with_utc_timestamp_raises:
  "extract_product_info sample_fromisoformat [undated_product, utc_product] = Inl TypeError"
  by code_simp

subsection \<open>The normaliser: storage path\<close>

text \<open>
  Claim C7, as stated, fails when the \<open>S3Path\<close> attribute has an empty value: the record
  has both the attribute and a different top-level field, and the top-level field wins.
\<close>

theorem empty_attribute_value_loses:
  "extract_product_info sample_fromisoformat [empty_attr_product] =
     Inr [\<lparr>product_name = ''S2A_MSIL2A_empty'', acquisition_date = None, datetime = [],
           online = False, size_bytes = 0, size_mb = 0, s3_path = Some ''/eodata/top''\<rparr>]
   \<and> Attributes empty_attr_product = Some [\<lparr>attr_Name = Some ''S3Path'', attr_Value = Some []\<rparr>]
   \<and> S3Path empty_attr_product = Some ''/eodata/top''"
  by code_simp

text \<open>
  Claim C7, amended. The storage path is the value of the first attribute named
  \<open>S3Path\<close> if that value is a non-empty string; otherwise the top-level \<open>S3Path\<close>
  field if the record has one; otherwise what the attribute scan left (the empty or
  missing value of the attribute, or null when there is no such attribute). So when
  both an \<open>S3Path\<close> attribute with a non-empty value and a top-level field exist, the
  attribute wins.
\<close>

theorem s3_path_precedence:
  assumes "product_info fromisoformat product = Inr info"
  shows "s3_path info =
     (case find (\<lambda>a. attr_Name a = Some ''S3Path'')
                (case Attributes product of None \<Rightarrow> [] | Some attrs \<Rightarrow> attrs) of
        Some a \<Rightarrow>
          if truthy (attr_Value a) then attr_Value a
          else if S3Path product \<noteq> None then S3Path product
          else attr_Value a
      | None \<Rightarrow> S3Path product)"
proof -
  have "resolve_s3_path product =
     (case find (\<lambda>a. attr_Name a = Some ''S3Path'')
                (case Attributes product of None \<Rightarrow> [] | Some attrs \<Rightarrow> attrs) of
        Some a \<Rightarrow>
          if truthy (attr_Value a) then attr_Value a
          else if S3Path product \<noteq> None then S3Path product
          else attr_Value a
      | None \<Rightarrow> S3Path product)"
    by (cases "Attributes product")
       (auto simp: resolve_s3_path_def scan_attributes_find truthy_def split: option.splits)
  with product_info_s3_path[OF assms] show ?thesis by simp
qed

theorem s3_path_precedence_witness:
  "\<exists>info. product_info sample_fromisoformat undated_product = Inr info
        \<and> s3_path info = Some ''/eodata/attr''"
proof -
  have "\<exists>info. product_info sample_fromisoformat undated_product = Inr info"
    by (simp add: product_info_def Let_def start_str_of_def undated_product_def)
  then obtain info where i: "product_info sample_fromisoformat undated_product = Inr info" ..
  from s3_path_precedence[OF i] have "s3_path info = Some ''/eodata/attr''"
    by (simp add: undated_product_def truthy_def)
  with i show ?thesis by blast
qed

subsection \<open>The normaliser: size in megabytes\<close>

text \<open>
  Claim C9, as stated, fails for byte counts from \<open>2^53\<close> on: the quotient is rounded to
  a double before it is rounded to two places. 9007199254756721 bytes are
  8589934592.01500034 megabytes, which rounds to 8589934592.02; the double nearest to
  the quotient is 8589934592.01499939, and \<open>size_mb\<close> is 8589934592.01.
\<close>

theorem large_byte_count_rounds_twice:
  "product_info sample_fromisoformat huge_product =
     Inr \<lparr>product_name = ''S2A_MSIL2A_huge'', acquisition_date = None, datetime = [],
          online = False, size_bytes = 9007199254756721, size_mb = 858993459201 / 100,
          s3_path = None\<rparr>
   \<and> py_round (9007199254756721 / 1048576) 2 = 858993459202 / 100"
  by code_simp

text \<open>
  Claim C9, amended. The summary keeps the byte count (0 when \<open>ContentLength\<close> is
  absent). For a byte count below \<open>2^53\<close> in absolute value, \<open>size_mb\<close> is 0 when the
  byte count is 0, and otherwise the byte count divided by 1048576 and rounded to two
  decimal places: a multiple of 1/100 at most 1/200 away from the quotient. A record of
  1572864 bytes has \<open>size_mb = 1.5\<close>.
\<close>

theorem size_mb_two_decimals:
  assumes "product_info fromisoformat product = Inr info"
    and "\<bar>bytes_of product\<bar> < 2 ^ 53"
  shows "size_bytes info = bytes_of product
       \<and> (bytes_of product = 0 \<longrightarrow> size_mb info = 0)
       \<and> (bytes_of product \<noteq> 0 \<longrightarrow>
            size_mb info = of_int (round_half_even (of_int (bytes_of product) / 1048576 * 100)) / 100
            \<and> \<bar>of_int (bytes_of product) / 1048576 - size_mb info\<bar> \<le> 1 / 200)
       \<and> (ContentLength product = Some 1572864 \<longrightarrow> size_mb info = 3 / 2)"
proof -
  from product_info_size[OF assms(1)] have
    b: "size_bytes info = bytes_of product" and m: "size_mb info = size_mb_of (bytes_of product)"
    by simp_all
  have q: "py_truediv (bytes_of product) 1048576 = of_int (bytes_of product) / 1048576"
    using truediv_exact[OF assms(2)] by simp
  have z: "bytes_of product = 0 \<longrightarrow> size_mb info = 0"
    by (simp add: m size_mb_of_def)
  have r: "bytes_of product \<noteq> 0 \<longrightarrow>
            size_mb info = of_int (round_half_even (of_int (bytes_of product) / 1048576 * 100)) / 100
            \<and> \<bar>of_int (bytes_of product) / 1048576 - size_mb info\<bar> \<le> 1 / 200"
    using py_round_2_close[of "of_int (bytes_of product) / 1048576"]
    by (simp add: m size_mb_of_def q py_round_def)
  have e: "ContentLength product = Some 1572864 \<longrightarrow> size_mb info = 3 / 2"
  proof
    assume "ContentLength product = Some 1572864"
    then have "bytes_of product = 1572864" by (simp add: bytes_of_def)
    then have "size_mb info = size_mb_of 1572864" by (simp add: m)
    also have "size_mb_of 1572864 = 3 / 2" by code_simp
    finally show "size_mb info = 3 / 2" .
  qed
  from b z r e show ?thesis by blast
qed

theorem size_mb_two_decimals_witness:
  "\<exists>info. product_info sample_fromisoformat undated_product = Inr info
        \<and> size_bytes info = 1572864 \<and> size_mb info = 3 / 2"
proof -
  have "\<exists>info. product_info sample_fromisoformat undated_product = Inr info"
    by (simp add: product_info_def Let_def start_str_of_def undated_product_def)
  then obtain info where i: "product_info sample_fromisoformat undated_product = Inr info" ..
  have c: "ContentLength undated_product = Some 1572864"
    by (simp add: undated_product_def)
  then have b: "bytes_of undated_product = 1572864"
    by (simp add: bytes_of_def)
  then have h: "\<bar>bytes_of undated_product\<bar> < 2 ^ 53" by simp
  from size_mb_two_decimals[OF i h] c b have "size_bytes info = 1572864 \<and> size_mb info = 3 / 2"
    by simp
  with i show ?thesis by blast
qed

end
